theory Spec2Isabelle
  imports Complex_Main "HOL-Library.Multiset"
begin

section \<open>Data model (types.ts)\<close>

text \<open>
  JavaScript numbers are modelled as mathematical reals (rounding and overflow are not
  modelled); target ids are integers. Record fields carry a short prefix because field
  names are global constants.
\<close>

record Zone =
  z_type :: string
  z_area :: string
  z_color :: string

record TargetArea =
  t_id :: int
  t_x :: real
  t_y :: real
  t_probability :: real
  t_description :: string
  t_reasoning :: "string option"

record PredictionResult =
  porphyryPotential :: string
  epithermalPotential :: string
  confidenceScore :: real
  alterationMinerals :: "string list"
  zones :: "Zone list"
  targetAreas :: "TargetArea list"
  recommendedActions :: "string list"
  reasoning :: string

section \<open>App.tsx: committing an edited description\<close>

text \<open>
  \<^verbatim>\<open>handleUpdateTargetDescription\<close>: the state \<^verbatim>\<open>analysisResult\<close> is
  \<^verbatim>\<open>PredictionResult | null\<close>; with \<^verbatim>\<open>null\<close> nothing happens.
\<close>

definition handleUpdateTargetDescription ::
  "int \<Rightarrow> string \<Rightarrow> PredictionResult option \<Rightarrow> PredictionResult option" where
  "handleUpdateTargetDescription tid newDescription analysisResult =
     (case analysisResult of
        None \<Rightarrow> None
      | Some r \<Rightarrow>
          (let updatedTargets =
                 map (\<lambda>target. if t_id target = tid
                                then target\<lparr>t_description := newDescription\<rparr>
                                else target) (targetAreas r)
           in Some (r\<lparr>targetAreas := updatedTargets\<rparr>)))"

section \<open>Heatmap.tsx: the viewport rectangle\<close>

record ViewBox =
  vb_x :: real
  vb_y :: real
  vb_w :: real
  vb_h :: real

text \<open>\<^verbatim>\<open>const aspect = width / height\<close>, for a container of nonzero height.\<close>

definition aspect :: "real \<Rightarrow> real \<Rightarrow> real" where
  "aspect width height = width / height"

definition getBaseViewBox :: "real \<Rightarrow> real \<Rightarrow> ViewBox" where
  "getBaseViewBox width height =
     (let w = (if aspect width height > 1 then 100 * aspect width height else 100);
          h = (if aspect width height > 1 then 100 else 100 / aspect width height)
      in \<lparr>vb_x = 50 - w / 2, vb_y = 50 - h / 2, vb_w = w, vb_h = h\<rparr>)"

text \<open>
  The boundary checks of \<^verbatim>\<open>handleWheel\<close> (the four \<^verbatim>\<open>if\<close> statements after
  \<^verbatim>\<open>bufferX\<close>, \<^verbatim>\<open>bufferY\<close>), in the order of the source: both lower bounds first,
  then both upper bounds.
\<close>

definition clampOrigin :: "ViewBox \<Rightarrow> ViewBox \<Rightarrow> ViewBox" where
  "clampOrigin base r =
     (let bufferX = vb_w base * 0.5;
          bufferY = vb_h base * 0.5;
          newX1 = (if vb_x r < vb_x base - bufferX then vb_x base - bufferX else vb_x r);
          newY1 = (if vb_y r < vb_y base - bufferY then vb_y base - bufferY else vb_y r);
          newX2 = (if newX1 + vb_w r > vb_x base + vb_w base + bufferX
                   then vb_x base + vb_w base + bufferX - vb_w r else newX1);
          newY2 = (if newY1 + vb_h r > vb_y base + vb_h base + bufferY
                   then vb_y base + vb_h base + bufferY - vb_h r else newY1)
      in \<lparr>vb_x = newX2, vb_y = newY2, vb_w = vb_w r, vb_h = vb_h r\<rparr>)"

text \<open>
  \<^verbatim>\<open>handleWheel\<close>: \<open>mx\<close>, \<open>my\<close> are the mouse position relative to the container. The
  rendered \<^verbatim>\<open>viewBox\<close> and the state \<^verbatim>\<open>prev\<close> of the updater are the same rectangle.
\<close>

definition handleWheel :: "real \<Rightarrow> real \<Rightarrow> real \<Rightarrow> real \<Rightarrow> real \<Rightarrow> ViewBox \<Rightarrow> ViewBox" where
  "handleWheel width height deltaY mx my prev =
     (let zoomSpeed = 0.001;
          delta = sgn deltaY * min \<bar>deltaY\<bar> 100;
          factor = 1 + delta * zoomSpeed;
          svgX = vb_x prev + (mx / width) * vb_w prev;
          svgY = vb_y prev + (my / height) * vb_h prev;
          newW0 = vb_w prev * factor;
          newH0 = vb_h prev * factor;
          base = getBaseViewBox width height;
          newW1 = (if newW0 > vb_w base then vb_w base else newW0);
          newH1 = (if newW0 > vb_w base then vb_h base else newH0);
          newW = (if newW1 < 2 then 2 else newW1);
          newH = (if newW1 < 2 then 2 / aspect width height else newH1);
          newX = svgX - (mx / width) * newW;
          newY = svgY - (my / height) * newH;
          clamped = clampOrigin base \<lparr>vb_x = newX, vb_y = newY, vb_w = newW, vb_h = newH\<rparr>
      in if \<bar>newW - vb_w base\<bar> < 0.1 then base else clamped)"

definition handleZoom :: "real \<Rightarrow> real \<Rightarrow> real \<Rightarrow> ViewBox \<Rightarrow> ViewBox" where
  "handleZoom width height factor prev =
     (let base = getBaseViewBox width height;
          newW = vb_w prev * factor;
          newH = vb_h prev * factor
      in if newW > vb_w base then base
         else if newW < 2 then prev
         else (let dW = vb_w prev - newW;
                   dH = vb_h prev - newH;
                   newX = vb_x prev + dW / 2;
                   newY = vb_y prev + dH / 2
               in \<lparr>vb_x = newX, vb_y = newY, vb_w = newW, vb_h = newH\<rparr>))"

definition resetZoom :: "real \<Rightarrow> real \<Rightarrow> ViewBox" where
  "resetZoom width height = getBaseViewBox width height"

text \<open>
  The pixel-to-data projection used by \<^verbatim>\<open>handleWheel\<close> (\<^verbatim>\<open>svgX\<close>, \<^verbatim>\<open>svgY\<close>): the
  mapping is linear because of \<^verbatim>\<open>preserveAspectRatio="none"\<close>.
\<close>

definition svgPoint :: "real \<Rightarrow> real \<Rightarrow> ViewBox \<Rightarrow> real \<times> real \<Rightarrow> real \<times> real" where
  "svgPoint width height vb m =
     (vb_x vb + (fst m / width) * vb_w vb, vb_y vb + (snd m / height) * vb_h vb)"

section \<open>Heatmap.tsx: clustering\<close>

record Cluster =
  c_id :: string
  c_x :: real
  c_y :: real
  c_points :: "TargetArea list"
  c_isCluster :: bool

text \<open>Decimal rendering of an integer id inside the template strings.\<close>

fun show_nat :: "nat \<Rightarrow> string" where
  "show_nat n =
     (if n < 10 then [''0123456789'' ! n]
      else show_nat (n div 10) @ [''0123456789'' ! (n mod 10)])"

definition show_int :: "int \<Rightarrow> string" where
  "show_int i = (if i < 0 then CHR ''-'' # show_nat (nat (- i)) else show_nat (nat i))"

text \<open>
  The inner loop over \<open>j\<close>: \<open>rest\<close> is \<^verbatim>\<open>sortedPoints\<close> from index \<open>j\<close> on; the loop
  state is \<^verbatim>\<open>clusterPoints\<close> and the set \<^verbatim>\<open>used\<close> of ids.
\<close>

fun scanNeighbors ::
  "real \<Rightarrow> TargetArea \<Rightarrow> TargetArea list \<Rightarrow> TargetArea list \<times> int set
     \<Rightarrow> TargetArea list \<times> int set" where
  "scanNeighbors threshold p [] (clusterPoints, used) = (clusterPoints, used)"
| "scanNeighbors threshold p (neighbor # rest) (clusterPoints, used) =
     (if t_id neighbor \<in> used then scanNeighbors threshold p rest (clusterPoints, used)
      else (let dist = sqrt ((t_x neighbor - t_x p)\<^sup>2 + (t_y neighbor - t_y p)\<^sup>2)
            in if dist \<le> threshold
               then scanNeighbors threshold p rest
                      (clusterPoints @ [neighbor], insert (t_id neighbor) used)
               else scanNeighbors threshold p rest (clusterPoints, used)))"

definition mkCluster :: "TargetArea \<Rightarrow> TargetArea list \<Rightarrow> Cluster" where
  "mkCluster p clusterPoints =
     (let avgX = foldl (\<lambda>sum c. sum + t_x c) 0 clusterPoints / real (length clusterPoints);
          avgY = foldl (\<lambda>sum c. sum + t_y c) 0 clusterPoints / real (length clusterPoints)
      in \<lparr>c_id = (if length clusterPoints > 1 then ''cluster-'' @ show_int (t_id p)
                   else ''point-'' @ show_int (t_id p)),
          c_x = avgX, c_y = avgY, c_points = clusterPoints,
          c_isCluster = (length clusterPoints > 1)\<rparr>)"

text \<open>
  The outer loop over \<open>i\<close>: the list is \<^verbatim>\<open>sortedPoints\<close> from index \<open>i\<close> on; the loop
  state is \<^verbatim>\<open>used\<close> and \<^verbatim>\<open>result\<close>.
\<close>

fun clusterLoop :: "real \<Rightarrow> TargetArea list \<Rightarrow> int set \<Rightarrow> Cluster list \<Rightarrow> Cluster list" where
  "clusterLoop threshold [] used result = result"
| "clusterLoop threshold (p # rest) used result =
     (if t_id p \<in> used then clusterLoop threshold rest used result
      else (case scanNeighbors threshold p rest ([p], insert (t_id p) used) of
              (clusterPoints, used') \<Rightarrow>
                clusterLoop threshold rest used' (result @ [mkCluster p clusterPoints])))"

text \<open>
  \<^verbatim>\<open>clusters\<close>: \<^verbatim>\<open>sort\<close> is stable, as is \<^const>\<open>sort_key\<close>; the second argument is
  \<^verbatim>\<open>viewBox.w\<close>.
\<close>

definition clusters :: "TargetArea list \<Rightarrow> real \<Rightarrow> Cluster list" where
  "clusters targets viewBoxW =
     (let threshold = viewBoxW * 0.08;
          sortedPoints = sort_key t_x targets
      in clusterLoop threshold sortedPoints {} [])"

section \<open>Heatmap.tsx: cluster drill-down\<close>

text \<open>The \<^verbatim>\<open>forEach\<close> that tracks \<^verbatim>\<open>minX, maxX, minY, maxY\<close>, starting from 100, 0, 100, 0.\<close>

definition clusterBounds :: "TargetArea list \<Rightarrow> real \<times> real \<times> real \<times> real" where
  "clusterBounds ps =
     foldl (\<lambda>(minX, maxX, minY, maxY) p.
              (if t_x p < minX then t_x p else minX,
               if t_x p > maxX then t_x p else maxX,
               if t_y p < minY then t_y p else minY,
               if t_y p > maxY then t_y p else maxY))
           (100, 0, 100, 0) ps"

text \<open>
  The rectangle that the multi-member branch of \<^verbatim>\<open>handleClusterClick\<close> passes to
  \<^verbatim>\<open>setViewBox\<close>. \<^verbatim>\<open>v || 10\<close> yields 10 when \<open>v\<close> is 0.
\<close>

definition drillDownViewBox :: "real \<Rightarrow> real \<Rightarrow> TargetArea list \<Rightarrow> ViewBox" where
  "drillDownViewBox width height ps =
     (case clusterBounds ps of (minX, maxX, minY, maxY) \<Rightarrow>
        (let clusterW = maxX - minX;
             clusterH = maxY - minY;
             pad = (if max clusterW clusterH * 0.5 = 0 then 10 else max clusterW clusterH * 0.5);
             targetW0 = max (clusterW + pad) 10;
             targetH0 = max (clusterH + pad) 10;
             dim = max targetW0 targetH0;
             targetX = (minX + maxX) / 2 - dim / 2;
             targetY = (minY + maxY) / 2 - dim / 2;
             targetW = (if aspect width height > 1 then targetH0 * aspect width height
                        else targetW0);
             targetH = (if aspect width height > 1 then targetH0
                        else targetW / aspect width height)
         in \<lparr>vb_x = targetX, vb_y = targetY, vb_w = targetW, vb_h = targetH\<rparr>))"

section \<open>Heatmap.tsx: gestures and selection\<close>

record HeatmapState =
  viewBox :: ViewBox
  isDragging :: bool
  dragStart :: "real \<times> real"
  dragDistance :: real
  selectedTargetId :: "int option"

datatype error = TypeError

definition handleMouseDown :: "int \<Rightarrow> real \<times> real \<Rightarrow> HeatmapState \<Rightarrow> HeatmapState" where
  "handleMouseDown button client s =
     (if button \<noteq> 0 then s
      else s\<lparr>isDragging := True, dragStart := client, dragDistance := 0\<rparr>)"

definition handleMouseMove :: "real \<Rightarrow> real \<Rightarrow> real \<times> real \<Rightarrow> HeatmapState \<Rightarrow> HeatmapState" where
  "handleMouseMove width height client s =
     (if \<not> isDragging s then s
      else (let dx = fst client - fst (dragStart s);
                dy = snd client - snd (dragStart s);
                s1 = s\<lparr>dragDistance := dragDistance s + (\<bar>dx\<bar> + \<bar>dy\<bar>)\<rparr>
            in if dx = 0 \<and> dy = 0 then s1
               else (let scaleX = vb_w (viewBox s) / width;
                         scaleY = vb_h (viewBox s) / height;
                         newX = vb_x (viewBox s) - dx * scaleX;
                         newY = vb_y (viewBox s) - dy * scaleY
                     in s1\<lparr>viewBox := (viewBox s)\<lparr>vb_x := newX, vb_y := newY\<rparr>,
                           dragStart := client\<rparr>)))"

definition handleMouseUp :: "HeatmapState \<Rightarrow> HeatmapState" where
  "handleMouseUp s = s\<lparr>isDragging := False\<rparr>"

definition handleContainerClick :: "HeatmapState \<Rightarrow> HeatmapState" where
  "handleContainerClick s =
     (if dragDistance s < 5 then s\<lparr>selectedTargetId := None\<rparr> else s)"

text \<open>
  \<^verbatim>\<open>handleClusterClick\<close> after its \<^verbatim>\<open>e.stopPropagation()\<close>. Reading
  \<^verbatim>\<open>cluster.points[0].id\<close> of an empty member list throws.
\<close>

definition handleClusterClick ::
  "real \<Rightarrow> real \<Rightarrow> Cluster \<Rightarrow> HeatmapState \<Rightarrow> error + HeatmapState" where
  "handleClusterClick width height cluster s =
     (if dragDistance s > 5 then Inr s
      else if \<not> c_isCluster cluster then
        (case c_points cluster of
           [] \<Rightarrow> Inl TypeError
         | p0 # _ \<Rightarrow> Inr (s\<lparr>selectedTargetId := Some (t_id p0)\<rparr>))
      else Inr (s\<lparr>viewBox := drillDownViewBox width height (c_points cluster)\<rparr>))"

text \<open>
  A click event: on a cluster's \<^verbatim>\<open><g>\<close> element the cluster handler runs and stops
  propagation, so the container's handler does not run; elsewhere in the container only
  \<^verbatim>\<open>handleContainerClick\<close> runs.
\<close>

datatype clickTarget = OnCluster Cluster | OnEmpty

definition click :: "real \<Rightarrow> real \<Rightarrow> clickTarget \<Rightarrow> HeatmapState \<Rightarrow> error + HeatmapState" where
  "click width height tgt s =
     (case tgt of
        OnCluster c \<Rightarrow> handleClusterClick width height c s
      | OnEmpty \<Rightarrow> Inr (handleContainerClick s))"

section \<open>Heatmap.tsx: the density grid\<close>

record Cell =
  cell_x :: real
  cell_y :: real
  cell_w :: real
  cell_h :: real
  cell_intensity :: real

definition gridSize :: nat where
  "gridSize = 30"

text \<open>The body of the two nested loops, for the indices \<open>i\<close> and \<open>j\<close>.\<close>

definition cellAt :: "TargetArea list \<Rightarrow> ViewBox \<Rightarrow> nat \<Rightarrow> nat \<Rightarrow> Cell" where
  "cellAt targets vb i j =
     (let cellW = vb_w vb / real gridSize;
          cellH = vb_h vb / real gridSize;
          cx = vb_x vb + (real i * cellW) + (cellW / 2);
          cy = vb_y vb + (real j * cellH) + (cellH / 2);
          intensity0 =
            foldl (\<lambda>intensity target.
                     (let dist = sqrt ((cx - t_x target)\<^sup>2 + (cy - t_y target)\<^sup>2);
                          influence = t_probability target * exp (- (dist * dist) / 100)
                      in intensity + influence))
                  0 targets;
          intensity = min intensity0 1
      in \<lparr>cell_x = vb_x vb + (real i * cellW), cell_y = vb_y vb + (real j * cellH),
          cell_w = cellW, cell_h = cellH, cell_intensity = intensity\<rparr>)"

definition cells :: "TargetArea list \<Rightarrow> ViewBox \<Rightarrow> Cell list" where
  "cells targets vb =
     concat (map (\<lambda>i. map (\<lambda>j. cellAt targets vb i j) [0..<gridSize]) [0..<gridSize])"

section \<open>Viewport arithmetic with the special values of JavaScript numbers\<close>

text \<open>
  For container dimensions that may be zero the model needs the values that a division by
  zero or an overflow produces. A JavaScript number is here a real (the real 0 stands for
  \<^verbatim>\<open>+0\<close>), \<^verbatim>\<open>-0\<close>, \<^verbatim>\<open>Infinity\<close>, \<^verbatim>\<open>-Infinity\<close> or \<^verbatim>\<open>NaN\<close>. An operation whose exact
  result is a nonzero real returns the rounding of that result. The rounding is the
  parameter \<open>rnd\<close> of the operations: it may return an infinity (overflow) or a zero
  (underflow). All other cases are those of IEEE 754 arithmetic: a sum that is exactly zero
  is \<^verbatim>\<open>+0\<close> unless both summands are \<^verbatim>\<open>-0\<close>, and the sign of a zero or infinite product
  or quotient is the product of the signs of the operands.
\<close>

datatype jsnum = Fin real | NZero | PInf | NInf | NaN


fun isInf :: "jsnum \<Rightarrow> bool" where
  "isInf PInf = True"
| "isInf NInf = True"
| "isInf (Fin a) = False"
| "isInf NZero = False"
| "isInf NaN = False"

fun isZero :: "jsnum \<Rightarrow> bool" where
  "isZero (Fin a) = (a = 0)"
| "isZero NZero = True"
| "isZero PInf = False"
| "isZero NInf = False"
| "isZero NaN = False"

text \<open>The real value of a finite number.\<close>

fun js_real :: "jsnum \<Rightarrow> real" where
  "js_real (Fin a) = a"
| "js_real NZero = 0"
| "js_real PInf = 0"
| "js_real NInf = 0"
| "js_real NaN = 0"

text \<open>The sign bit of a number that is not \<^verbatim>\<open>NaN\<close>.\<close>

fun js_negative :: "jsnum \<Rightarrow> bool" where
  "js_negative (Fin a) = (a < 0)"
| "js_negative NZero = True"
| "js_negative NInf = True"
| "js_negative PInf = False"
| "js_negative NaN = False"

definition js_signed :: "bool \<Rightarrow> jsnum" where
  "js_signed positive = (if positive then PInf else NInf)"

definition js_zero :: "bool \<Rightarrow> jsnum" where
  "js_zero positive = (if positive then Fin 0 else NZero)"

fun js_neg :: "jsnum \<Rightarrow> jsnum" where
  "js_neg (Fin a) = (if a = 0 then NZero else Fin (- a))"
| "js_neg NZero = Fin 0"
| "js_neg PInf = NInf"
| "js_neg NInf = PInf"
| "js_neg NaN = NaN"

definition js_add :: "(real \<Rightarrow> jsnum) \<Rightarrow> jsnum \<Rightarrow> jsnum \<Rightarrow> jsnum" where
  "js_add rnd u v =
     (if u = NaN \<or> v = NaN then NaN
      else if isInf u \<and> isInf v then (if u = v then u else NaN)
      else if isInf u then u
      else if isInf v then v
      else if js_real u + js_real v = 0 then js_zero (\<not> (u = NZero \<and> v = NZero))
      else rnd (js_real u + js_real v))"

definition js_sub :: "(real \<Rightarrow> jsnum) \<Rightarrow> jsnum \<Rightarrow> jsnum \<Rightarrow> jsnum" where
  "js_sub rnd u v = js_add rnd u (js_neg v)"

definition js_mul :: "(real \<Rightarrow> jsnum) \<Rightarrow> jsnum \<Rightarrow> jsnum \<Rightarrow> jsnum" where
  "js_mul rnd u v =
     (if u = NaN \<or> v = NaN then NaN
      else if isInf u \<or> isInf v
        then (if isZero u \<or> isZero v then NaN else js_signed (js_negative u = js_negative v))
      else if isZero u \<or> isZero v then js_zero (js_negative u = js_negative v)
      else rnd (js_real u * js_real v))"

definition js_div :: "(real \<Rightarrow> jsnum) \<Rightarrow> jsnum \<Rightarrow> jsnum \<Rightarrow> jsnum" where
  "js_div rnd u v =
     (if u = NaN \<or> v = NaN then NaN
      else if isInf u
        then (if isInf v then NaN else js_signed (js_negative u = js_negative v))
      else if isInf v then js_zero (js_negative u = js_negative v)
      else if isZero v
        then (if isZero u then NaN else js_signed (js_negative u = js_negative v))
      else if isZero u then js_zero (js_negative u = js_negative v)
      else rnd (js_real u / js_real v))"

definition js_gt :: "jsnum \<Rightarrow> jsnum \<Rightarrow> bool" where
  "js_gt u v =
     (if u = NaN \<or> v = NaN then False
      else if u = PInf then v \<noteq> PInf
      else if v = NInf then u \<noteq> NInf
      else if u = NInf \<or> v = PInf then False
      else js_real u > js_real v)"

record JsViewBox =
  js_x :: jsnum
  js_y :: jsnum
  js_w :: jsnum
  js_h :: jsnum



text \<open>\<^verbatim>\<open>getBaseViewBox\<close> for any container dimensions.\<close>

definition getBaseViewBox_js :: "(real \<Rightarrow> jsnum) \<Rightarrow> jsnum \<Rightarrow> jsnum \<Rightarrow> JsViewBox" where
  "getBaseViewBox_js rnd width height =
     (let aspect = js_div rnd width height;
          w = (if js_gt aspect (Fin 1) then js_mul rnd (Fin 100) aspect else Fin 100);
          h = (if js_gt aspect (Fin 1) then Fin 100 else js_div rnd (Fin 100) aspect)
      in \<lparr>js_x = js_sub rnd (Fin 50) (js_div rnd w (Fin 2)),
          js_y = js_sub rnd (Fin 50) (js_div rnd h (Fin 2)), js_w = w, js_h = h\<rparr>)"



section \<open>Predicates used in the statements and proofs\<close>

text \<open>A cluster has a member and its centroid is the mean of the members.\<close>

definition centred :: "Cluster \<Rightarrow> bool" where
  "centred c \<longleftrightarrow>
     c_points c \<noteq> [] \<and>
     c_x c = sum_list (map t_x (c_points c)) / real (length (c_points c)) \<and>
     c_y c = sum_list (map t_y (c_points c)) / real (length (c_points c))"

text \<open>The membership sets of a list of clusters.\<close>

definition membership :: "Cluster list \<Rightarrow> TargetArea set set" where
  "membership cs = (\<lambda>c. set (c_points c)) ` set cs"

text \<open>The number of points that sit in multi-member clusters.\<close>

definition mergedCount :: "Cluster list \<Rightarrow> nat" where
  "mergedCount cs = sum_list (map (\<lambda>c. length (c_points c)) (filter c_isCluster cs))"

text \<open>The distance test of the inner loop, and a list with a pair that passes it.\<close>

definition near :: "real \<Rightarrow> TargetArea \<Rightarrow> TargetArea \<Rightarrow> bool" where
  "near threshold p q \<longleftrightarrow> sqrt ((t_x q - t_x p)\<^sup>2 + (t_y q - t_y p)\<^sup>2) \<le> threshold"

fun hasNearPair :: "real \<Rightarrow> TargetArea list \<Rightarrow> bool" where
  "hasNearPair threshold [] = False"
| "hasNearPair threshold (p # rest) =
     ((\<exists>q \<in> set rest. near threshold p q) \<or> hasNearPair threshold rest)"

text \<open>
  The density of the specification: the centre of a cell, the Euclidean distance in data
  space, and the clamped sum of \<open>probability * exp (- d\<^sup>2 / 100)\<close> over all points.
\<close>

definition cellCentre :: "Cell \<Rightarrow> real \<times> real" where
  "cellCentre c = (cell_x c + cell_w c / 2, cell_y c + cell_h c / 2)"

definition euclid :: "real \<times> real \<Rightarrow> real \<times> real \<Rightarrow> real" where
  "euclid a b = sqrt ((fst a - fst b)\<^sup>2 + (snd a - snd b)\<^sup>2)"

definition spec_density :: "TargetArea list \<Rightarrow> real \<times> real \<Rightarrow> real" where
  "spec_density targets centre =
     min 1 (sum_list (map (\<lambda>t. t_probability t * exp (- (euclid centre (t_x t, t_y t))\<^sup>2 / 100))
                          targets))"

section \<open>Sample inputs\<close>

definition sampleTargets :: "TargetArea list" where
  "sampleTargets =
     [\<lparr>t_id = 1, t_x = 10, t_y = 10, t_probability = 9/10,
       t_description = ''alpha'', t_reasoning = None\<rparr>,
      \<lparr>t_id = 2, t_x = 12, t_y = 11, t_probability = 1/2,
       t_description = ''beta'', t_reasoning = Some ''vein''\<rparr>]"

definition sampleResult :: PredictionResult where
  "sampleResult =
     \<lparr>porphyryPotential = ''High'', epithermalPotential = ''Low'', confidenceScore = 80,
      alterationMinerals = [''sericite''], zones = [], targetAreas = sampleTargets,
      recommendedActions = [''drill''], reasoning = ''summary''\<rparr>"

definition pt :: "int \<Rightarrow> real \<Rightarrow> real \<Rightarrow> TargetArea" where
  "pt i px py = \<lparr>t_id = i, t_x = px, t_y = py, t_probability = 1,
                 t_description = [], t_reasoning = None\<rparr>"

text \<open>Three points with the same x, and the same points in another order.\<close>

definition tiedPoints :: "TargetArea list" where
  "tiedPoints = [pt 1 0 0, pt 2 0 3, pt 3 0 6]"

definition tiedPointsShuffled :: "TargetArea list" where
  "tiedPointsShuffled = [pt 2 0 3, pt 1 0 0, pt 3 0 6]"

text \<open>Four points on a line.\<close>

definition linePoints :: "TargetArea list" where
  "linePoints = [pt 1 0 0, pt 2 2 0, pt 3 5 0, pt 4 7 0]"

text \<open>The unit square of data space as a viewport, and a point at the centre of its first cell.\<close>

definition squareViewBox :: ViewBox where
  "squareViewBox = \<lparr>vb_x = 0, vb_y = 0, vb_w = 100, vb_h = 100\<rparr>"

definition cornerPoint :: TargetArea where
  "cornerPoint = pt 1 (5 / 3) (5 / 3)"

text \<open>A drag in progress over the square viewport, started at pixel (10, 10).\<close>

definition draggingState :: HeatmapState where
  "draggingState = \<lparr>viewBox = squareViewBox, isDragging = True, dragStart = (10, 10),
                     dragDistance = 0, selectedTargetId = None\<rparr>"

text \<open>A rectangle at the lower corner of the buffered bounds of a 100 by 100 container.\<close>

definition cornerViewBox :: ViewBox where
  "cornerViewBox = \<lparr>vb_x = - 50, vb_y = - 50, vb_w = 50, vb_h = 50\<rparr>"

text \<open>
  Two points 10 units apart in y, which the base view of a 600 by 400 container (width 150,
  threshold 12) merges into one cluster.
\<close>

definition tallPoints :: "TargetArea list" where
  "tallPoints = [pt 1 50 45, pt 2 50 55]"

definition tallCluster :: Cluster where
  "tallCluster = \<lparr>c_id = ''cluster-1'', c_x = 50, c_y = 50, c_points = tallPoints,
                   c_isCluster = True\<rparr>"

text \<open>A single-point cluster, and an idle heatmap with target 3 selected.\<close>

definition singleCluster :: Cluster where
  "singleCluster = \<lparr>c_id = ''point-7'', c_x = 50, c_y = 50, c_points = [pt 7 50 50],
                     c_isCluster = False\<rparr>"

definition idleState :: HeatmapState where
  "idleState = \<lparr>viewBox = squareViewBox, isDragging = False, dragStart = (0, 0),
                 dragDistance = 0, selectedTargetId = Some 3\<rparr>"

text \<open>Press at (10, 10), move to (13, 12), release: 3 + 2 = 5 pixels of displacement.\<close>

definition fiveDragState :: HeatmapState where
  "fiveDragState =
     handleMouseUp (handleMouseMove 100 100 (13, 12) (handleMouseDown 0 (10, 10) idleState))"

section \<open>Frame property of the description update\<close>

lemma handleUpdateTargetDescription_Some:
  "handleUpdateTargetDescription tid d (Some r) =
     Some (r\<lparr>targetAreas :=
              map (\<lambda>target. if t_id target = tid then target\<lparr>t_description := d\<rparr> else target)
                  (targetAreas r)\<rparr>)"
  by (simp add: handleUpdateTargetDescription_def)

lemma map_update_absent:
  "tid \<notin> t_id ` set ts \<Longrightarrow>
     map (\<lambda>target. if t_id target = tid then target\<lparr>t_description := d\<rparr> else target) ts = ts"
  by (induction ts) auto

text \<open>
  Claim C10. Committing a description for target id \<open>tid\<close> keeps the number and order of
  the targets; a target whose id is \<open>tid\<close> gets the new description and keeps its id,
  position, probability and reasoning; every other target is unchanged; every other field
  of the analysis result is unchanged; if no target has the id, the target list is
  unchanged. With no analysis result (\<open>None\<close>) nothing happens.
\<close>

theorem handleUpdateTargetDescription_frame:
  "handleUpdateTargetDescription tid d None = None \<and>
   (\<exists>r'. handleUpdateTargetDescription tid d (Some r) = Some r' \<and>
      length (targetAreas r') = length (targetAreas r) \<and>
      (\<forall>i < length (targetAreas r).
          (t_id (targetAreas r ! i) = tid \<longrightarrow>
             t_description (targetAreas r' ! i) = d \<and>
             t_id (targetAreas r' ! i) = t_id (targetAreas r ! i) \<and>
             t_x (targetAreas r' ! i) = t_x (targetAreas r ! i) \<and>
             t_y (targetAreas r' ! i) = t_y (targetAreas r ! i) \<and>
             t_probability (targetAreas r' ! i) = t_probability (targetAreas r ! i) \<and>
             t_reasoning (targetAreas r' ! i) = t_reasoning (targetAreas r ! i)) \<and>
          (t_id (targetAreas r ! i) \<noteq> tid \<longrightarrow> targetAreas r' ! i = targetAreas r ! i)) \<and>
      porphyryPotential r' = porphyryPotential r \<and>
      epithermalPotential r' = epithermalPotential r \<and>
      confidenceScore r' = confidenceScore r \<and>
      alterationMinerals r' = alterationMinerals r \<and>
      zones r' = zones r \<and>
      recommendedActions r' = recommendedActions r \<and>
      reasoning r' = reasoning r \<and>
      (tid \<notin> t_id ` set (targetAreas r) \<longrightarrow> targetAreas r' = targetAreas r))"
proof
  show "handleUpdateTargetDescription tid d None = None"
    by (simp add: handleUpdateTargetDescription_def)
next
  show "\<exists>r'. handleUpdateTargetDescription tid d (Some r) = Some r' \<and>
      length (targetAreas r') = length (targetAreas r) \<and>
      (\<forall>i < length (targetAreas r).
          (t_id (targetAreas r ! i) = tid \<longrightarrow>
             t_description (targetAreas r' ! i) = d \<and>
             t_id (targetAreas r' ! i) = t_id (targetAreas r ! i) \<and>
             t_x (targetAreas r' ! i) = t_x (targetAreas r ! i) \<and>
             t_y (targetAreas r' ! i) = t_y (targetAreas r ! i) \<and>
             t_probability (targetAreas r' ! i) = t_probability (targetAreas r ! i) \<and>
             t_reasoning (targetAreas r' ! i) = t_reasoning (targetAreas r ! i)) \<and>
          (t_id (targetAreas r ! i) \<noteq> tid \<longrightarrow> targetAreas r' ! i = targetAreas r ! i)) \<and>
      porphyryPotential r' = porphyryPotential r \<and>
      epithermalPotential r' = epithermalPotential r \<and>
      confidenceScore r' = confidenceScore r \<and>
      alterationMinerals r' = alterationMinerals r \<and>
      zones r' = zones r \<and>
      recommendedActions r' = recommendedActions r \<and>
      reasoning r' = reasoning r \<and>
      (tid \<notin> t_id ` set (targetAreas r) \<longrightarrow> targetAreas r' = targetAreas r)"
    unfolding handleUpdateTargetDescription_Some
    by (rule exI [of _ "r\<lparr>targetAreas :=
              map (\<lambda>target. if t_id target = tid then target\<lparr>t_description := d\<rparr> else target)
                  (targetAreas r)\<rparr>"]) (simp add: map_update_absent)
qed

theorem handleUpdateTargetDescription_frame_witness:
  "\<exists>r'. handleUpdateTargetDescription 2 ''new text'' (Some sampleResult) = Some r' \<and>
     targetAreas r' ! 0 = sampleTargets ! 0 \<and>
     t_description (targetAreas r' ! 1) = ''new text'' \<and>
     t_x (targetAreas r' ! 1) = 12 \<and>
     reasoning r' = ''summary''"
proof -
  from handleUpdateTargetDescription_frame [of 2 "''new text''" sampleResult]
  obtain r' where r': "handleUpdateTargetDescription 2 ''new text'' (Some sampleResult) = Some r'"
    and upd: "\<forall>i < length (targetAreas sampleResult).
          (t_id (targetAreas sampleResult ! i) = 2 \<longrightarrow>
             t_description (targetAreas r' ! i) = ''new text'' \<and>
             t_id (targetAreas r' ! i) = t_id (targetAreas sampleResult ! i) \<and>
             t_x (targetAreas r' ! i) = t_x (targetAreas sampleResult ! i) \<and>
             t_y (targetAreas r' ! i) = t_y (targetAreas sampleResult ! i) \<and>
             t_probability (targetAreas r' ! i) = t_probability (targetAreas sampleResult ! i) \<and>
             t_reasoning (targetAreas r' ! i) = t_reasoning (targetAreas sampleResult ! i)) \<and>
          (t_id (targetAreas sampleResult ! i) \<noteq> 2 \<longrightarrow>
             targetAreas r' ! i = targetAreas sampleResult ! i)"
    and rs: "reasoning r' = reasoning sampleResult"
    by blast
  have ts: "targetAreas sampleResult = sampleTargets"
    by (simp add: sampleResult_def)
  have len: "length sampleTargets = 2"
    by (simp add: sampleTargets_def)
  have id0: "t_id (sampleTargets ! 0) \<noteq> 2" and id1: "t_id (sampleTargets ! 1) = 2"
    and x1: "t_x (sampleTargets ! 1) = 12"
    by (simp_all add: sampleTargets_def)
  from upd [rule_format, of 0] id0 have "targetAreas r' ! 0 = sampleTargets ! 0"
    by (simp add: ts len)
  moreover from upd [rule_format, of 1] id1 x1
  have "t_description (targetAreas r' ! 1) = ''new text'' \<and> t_x (targetAreas r' ! 1) = 12"
    by (simp add: ts len)
  moreover from rs have "reasoning r' = ''summary''"
    by (simp add: sampleResult_def)
  ultimately show ?thesis using r' by blast
qed

section \<open>Clustering: partition and centroids\<close>

lemma foldl_add_sum_list:
  "foldl (\<lambda>sum c. sum + f c) (a::real) xs = a + sum_list (map f xs)"
  by (induction xs arbitrary: a) simp_all

lemma scanNeighbors_used_lower:
  "scanNeighbors th p rest (cp, used) = (cp', used') \<Longrightarrow> used \<subseteq> used'"
proof (induction rest arbitrary: cp used)
  case Nil
  then show ?case by simp
next
  case (Cons n rest)
  then show ?case
    by (auto simp: Let_def split: if_splits)
qed

lemma scanNeighbors_used_upper:
  "scanNeighbors th p rest (cp, used) = (cp', used') \<Longrightarrow> used' \<subseteq> used \<union> t_id ` set rest"
proof (induction rest arbitrary: cp used)
  case Nil
  then show ?case by simp
next
  case (Cons n rest)
  then show ?case
    by (fastforce simp: Let_def split: if_splits)
qed

lemma scanNeighbors_extends:
  "scanNeighbors th p rest (cp, used) = (cp', used') \<Longrightarrow> \<exists>js. cp' = cp @ js"
proof (induction rest arbitrary: cp used)
  case Nil
  then show ?case by simp
next
  case (Cons n rest)
  then show ?case
    by (fastforce simp: Let_def split: if_splits)
qed

lemma filter_unused_insert:
  "i \<notin> t_id ` set ps \<Longrightarrow>
     filter (\<lambda>q. t_id q \<notin> insert i used) ps = filter (\<lambda>q. t_id q \<notin> used) ps"
  by (induction ps) auto

lemma scanNeighbors_mset:
  assumes "scanNeighbors th p rest (cp, used) = (cp', used')"
    and "distinct (map t_id rest)"
  shows "mset cp' + mset (filter (\<lambda>q. t_id q \<notin> used') rest)
           = mset cp + mset (filter (\<lambda>q. t_id q \<notin> used) rest)"
  using assms
proof (induction rest arbitrary: cp used)
  case Nil
  then show ?case by simp
next
  case (Cons n rest)
  have dist: "distinct (map t_id rest)" and fresh: "t_id n \<notin> t_id ` set rest"
    using Cons.prems(2) by simp_all
  show ?case
  proof (cases "t_id n \<in> used")
    case True
    with Cons.prems(1) have run: "scanNeighbors th p rest (cp, used) = (cp', used')"
      by simp
    from scanNeighbors_used_lower [OF run] True have "t_id n \<in> used'"
      by blast
    with True Cons.IH [OF run dist] show ?thesis
      by simp
  next
    case False
    show ?thesis
    proof (cases "sqrt ((t_x n - t_x p)\<^sup>2 + (t_y n - t_y p)\<^sup>2) \<le> th")
      case True
      with False Cons.prems(1)
      have run: "scanNeighbors th p rest (cp @ [n], insert (t_id n) used) = (cp', used')"
        by simp
      from scanNeighbors_used_lower [OF run] have "t_id n \<in> used'"
        by blast
      have "mset cp' + mset (filter (\<lambda>q. t_id q \<notin> used') rest)
              = mset (cp @ [n]) + mset (filter (\<lambda>q. t_id q \<notin> used) rest)"
        using Cons.IH [OF run dist] by (simp only: filter_unused_insert [OF fresh])
      with False \<open>t_id n \<in> used'\<close> show ?thesis
        by simp
    next
      case far: False
      with False Cons.prems(1) have run: "scanNeighbors th p rest (cp, used) = (cp', used')"
        by simp
      from scanNeighbors_used_upper [OF run] False fresh have "t_id n \<notin> used'"
        by blast
      with False Cons.IH [OF run dist] show ?thesis
        by simp
    qed
  qed
qed

lemma clusterLoop_mset:
  "distinct (map t_id ps) \<Longrightarrow>
     mset (concat (map c_points (clusterLoop th ps used result)))
       = mset (concat (map c_points result)) + mset (filter (\<lambda>q. t_id q \<notin> used) ps)"
proof (induction ps arbitrary: used result)
  case Nil
  then show ?case by simp
next
  case (Cons p rest)
  have dist: "distinct (map t_id rest)" and fresh: "t_id p \<notin> t_id ` set rest"
    using Cons.prems by simp_all
  show ?case
  proof (cases "t_id p \<in> used")
    case True
    with Cons.IH [OF dist] show ?thesis
      by simp
  next
    case False
    obtain cp used' where
      run: "scanNeighbors th p rest ([p], insert (t_id p) used) = (cp, used')"
      by (cases "scanNeighbors th p rest ([p], insert (t_id p) used)")
    have "mset cp + mset (filter (\<lambda>q. t_id q \<notin> used') rest)
            = mset [p] + mset (filter (\<lambda>q. t_id q \<notin> used) rest)"
      using scanNeighbors_mset [OF run dist] by (simp only: filter_unused_insert [OF fresh])
    moreover have "c_points (mkCluster p cp) = cp"
      by (simp add: mkCluster_def Let_def)
    ultimately show ?thesis
      using False run Cons.IH [OF dist, of used' "result @ [mkCluster p cp]"]
      by (simp add: add.assoc)
  qed
qed

lemma centred_mkCluster: "cp \<noteq> [] \<Longrightarrow> centred (mkCluster p cp)"
  by (simp add: centred_def mkCluster_def Let_def foldl_add_sum_list)

lemma clusterLoop_centred:
  "\<forall>c \<in> set result. centred c \<Longrightarrow> \<forall>c \<in> set (clusterLoop th ps used result). centred c"
proof (induction ps arbitrary: used result)
  case Nil
  then show ?case by simp
next
  case (Cons p rest)
  show ?case
  proof (cases "t_id p \<in> used")
    case True
    with Cons show ?thesis by simp
  next
    case False
    obtain cp used' where
      run: "scanNeighbors th p rest ([p], insert (t_id p) used) = (cp, used')"
      by (cases "scanNeighbors th p rest ([p], insert (t_id p) used)")
    from scanNeighbors_extends [OF run] have "cp \<noteq> []"
      by auto
    then have "\<forall>c \<in> set (result @ [mkCluster p cp]). centred c"
      using Cons.prems centred_mkCluster by auto
    from Cons.IH [OF this] False run show ?thesis
      by simp
  qed
qed

lemma distinct_concat_disjoint:
  "distinct (concat xss) \<Longrightarrow> i < j \<Longrightarrow> j < length xss \<Longrightarrow> set (xss ! i) \<inter> set (xss ! j) = {}"
proof (induction xss arbitrary: i j)
  case Nil
  then show ?case by simp
next
  case (Cons xs xss)
  show ?case
  proof (cases i)
    case 0
    with Cons.prems obtain j' where j': "j = Suc j'" "j' < length xss"
      by (cases j) auto
    then have mem: "set (xss ! j') \<subseteq> \<Union> (set ` set xss)"
      by (metis UN_upper nth_mem)
    from Cons.prems(1) have "set xs \<inter> \<Union> (set ` set xss) = {}"
      by simp
    with mem have "set xs \<inter> set (xss ! j') = {}"
      by blast
    with 0 j' show ?thesis
      by simp
  next
    case (Suc i')
    with Cons.prems obtain j' where j': "j = Suc j'" "i' < j'" "j' < length xss"
      by (cases j) auto
    with Cons.IH [of i' j'] Cons.prems(1) Suc show ?thesis
      by simp
  qed
qed

lemma clusters_mset:
  "distinct (map t_id P) \<Longrightarrow> mset (concat (map c_points (clusters P w))) = mset P"
proof -
  assume "distinct (map t_id P)"
  then have "distinct (map t_id (sort_key t_x P))"
    by (metis distinct_map distinct_sort set_sort)
  from clusterLoop_mset [OF this, of "w * 0.08" "{}" "[]"] show ?thesis
    by (simp add: clusters_def Let_def)
qed

text \<open>
  Claim C1. For a point set with unique ids and any viewport width, the member lists of the
  clusters partition the input: their concatenation is a permutation of the input, every
  input point belongs to the member list of exactly one cluster, every cluster has a
  member, and the centroid of each cluster is the mean of its members' x and of their y.
\<close>

theorem clusters_partition:
  assumes "distinct (map t_id P)"
  shows "mset (concat (map c_points (clusters P w))) = mset P \<and>
         (\<forall>p \<in> set P. \<exists>!i. i < length (clusters P w) \<and> p \<in> set (c_points (clusters P w ! i))) \<and>
         (\<forall>c \<in> set (clusters P w).
            c_points c \<noteq> [] \<and>
            c_x c = sum_list (map t_x (c_points c)) / real (length (c_points c)) \<and>
            c_y c = sum_list (map t_y (c_points c)) / real (length (c_points c)))"
proof (intro conjI)
  let ?cs = "clusters P w"
  let ?xss = "map c_points ?cs"
  show perm: "mset (concat ?xss) = mset P"
    by (rule clusters_mset [OF assms])
  have "distinct P"
    using assms by (simp add: distinct_map)
  with perm have dc: "distinct (concat ?xss)"
    by (metis mset_eq_imp_distinct_iff)
  from perm have sets: "set (concat ?xss) = set P"
    by (rule mset_eq_setD)
  show "\<forall>p \<in> set P. \<exists>!i. i < length ?cs \<and> p \<in> set (c_points (?cs ! i))"
  proof
    fix p assume "p \<in> set P"
    with sets obtain c where c: "c \<in> set ?cs" "p \<in> set (c_points c)"
      by auto
    then obtain i where i: "i < length ?cs" "?cs ! i = c"
      by (auto simp: in_set_conv_nth)
    show "\<exists>!i. i < length ?cs \<and> p \<in> set (c_points (?cs ! i))"
    proof (rule ex1I [of _ i])
      show "i < length ?cs \<and> p \<in> set (c_points (?cs ! i))"
        using i c by simp
    next
      fix j assume j: "j < length ?cs \<and> p \<in> set (c_points (?cs ! j))"
      show "j = i"
      proof (rule ccontr)
        assume "j \<noteq> i"
        then consider "i < j" | "j < i"
          by linarith
        then have "set (?xss ! i) \<inter> set (?xss ! j) = {}"
        proof cases
          case 1
          with distinct_concat_disjoint [OF dc, of i j] j show ?thesis by simp
        next
          case 2
          with distinct_concat_disjoint [OF dc, of j i] i show ?thesis by (simp add: Int_commute)
        qed
        with i c j show False
          by auto
      qed
    qed
  qed
  have "\<forall>c \<in> set (clusterLoop (w * 0.08) (sort_key t_x P) {} []). centred c"
    by (rule clusterLoop_centred) simp
  then show "\<forall>c \<in> set ?cs.
            c_points c \<noteq> [] \<and>
            c_x c = sum_list (map t_x (c_points c)) / real (length (c_points c)) \<and>
            c_y c = sum_list (map t_y (c_points c)) / real (length (c_points c))"
    by (simp add: clusters_def Let_def centred_def)
qed

theorem clusters_partition_witness:
  "distinct (map t_id sampleTargets) \<and>
   mset (concat (map c_points (clusters sampleTargets 50))) = mset sampleTargets \<and>
   (\<exists>!i. i < length (clusters sampleTargets 50) \<and>
          sampleTargets ! 1 \<in> set (c_points (clusters sampleTargets 50 ! i)))"
proof -
  have d: "distinct (map t_id sampleTargets)"
    by (simp add: sampleTargets_def)
  have "sampleTargets ! 1 \<in> set sampleTargets"
    by (simp add: sampleTargets_def)
  with clusters_partition [OF d, of 50] d show ?thesis
    by blast
qed

text \<open>
  The scenario of the specification: the two sample points (distance \<open>sqrt 5\<close>) form one
  cluster at viewport width 50 (threshold 4) and two singles at width 20 (threshold 1.6).
\<close>

lemma sort_sampleTargets: "sort_key t_x sampleTargets = sampleTargets"
  by (simp add: sampleTargets_def)

lemma clusters_scenario_merged: "map c_points (clusters sampleTargets 50) = [sampleTargets]"
proof -
  have "sqrt 5 \<le> 4"
    by (rule real_le_lsqrt) simp_all
  then show ?thesis
    by (simp add: clusters_def sort_sampleTargets) (simp add: sampleTargets_def mkCluster_def)
qed

lemma clusters_scenario_apart:
  "map c_points (clusters sampleTargets 20) = [[sampleTargets ! 0], [sampleTargets ! 1]]"
proof -
  have "\<not> sqrt 5 \<le> 8 / 5"
  proof
    assume "sqrt 5 \<le> 8 / 5"
    from sqrt_le_D [OF this] show False
      by (simp add: power2_eq_square)
  qed
  then show ?thesis
    by (simp add: clusters_def sort_sampleTargets) (simp add: sampleTargets_def mkCluster_def)
qed

section \<open>Clustering and the order of the input\<close>

lemma sqrt_9: "sqrt 9 = 3"
  using real_sqrt_abs2 [of 3] by simp

lemma sqrt_25: "sqrt 25 = 5"
  using real_sqrt_abs2 [of 5] by simp

lemma sqrt_36: "sqrt 36 = 6"
  using real_sqrt_abs2 [of 6] by simp

lemma sqrt_49: "sqrt 49 = 7"
  using real_sqrt_abs2 [of 7] by simp

lemma membership_tiedPoints:
  "membership (clusters tiedPoints 50) = {{pt 1 0 0, pt 2 0 3}, {pt 3 0 6}}"
  by (simp add: clusters_def tiedPoints_def pt_def sqrt_9 sqrt_36 membership_def mkCluster_def)

lemma membership_tiedPointsShuffled:
  "membership (clusters tiedPointsShuffled 50) = {{pt 1 0 0, pt 2 0 3, pt 3 0 6}}"
  by (simp add: clusters_def tiedPointsShuffled_def pt_def sqrt_9 sqrt_36 membership_def
      mkCluster_def insert_commute)

text \<open>
  Claim C2 as stated fails: three points with the same x, 3 units apart in y, at viewport
  width 50 (threshold 4). In the order 1, 2, 3 the seed is point 1, which takes point 2
  only; in the order 2, 1, 3 the stable sort keeps point 2 first, and it takes both others.
\<close>

theorem clusters_shuffle_counterexample:
  "mset tiedPointsShuffled = mset tiedPoints \<and>
   membership (clusters tiedPointsShuffled 50) \<noteq> membership (clusters tiedPoints 50)"
proof
  show "mset tiedPointsShuffled = mset tiedPoints"
    by (simp add: tiedPointsShuffled_def tiedPoints_def)
next
  have "{pt 3 0 6} \<in> membership (clusters tiedPoints 50)"
    by (simp add: membership_tiedPoints)
  moreover have "{pt 3 0 6} \<notin> membership (clusters tiedPointsShuffled 50)"
    by (simp add: membership_tiedPointsShuffled pt_def)
  ultimately show "membership (clusters tiedPointsShuffled 50) \<noteq> membership (clusters tiedPoints 50)"
    by metis
qed

text \<open>
  Claim C2, amended. For a point set whose x coordinates are pairwise distinct, clustering
  any permutation of it gives the same list of clusters, hence the same membership sets.
\<close>

theorem clusters_shuffle_distinct_x:
  assumes "distinct (map t_x P)" and "mset P' = mset P"
  shows "clusters P' w = clusters P w \<and> membership (clusters P' w) = membership (clusters P w)"
proof -
  have "sort_key t_x P' = sort_key t_x P"
    using assms by (metis distinct_map sort_key_eq_sort_key)
  then show ?thesis
    by (simp add: clusters_def)
qed

theorem clusters_shuffle_distinct_x_witness:
  "distinct (map t_x linePoints) \<and> mset (rev linePoints) = mset linePoints \<and>
   clusters (rev linePoints) 25 = clusters linePoints 25"
proof -
  have d: "distinct (map t_x linePoints)"
    by (simp add: linePoints_def pt_def)
  have m: "mset (rev linePoints) = mset linePoints"
    by simp
  from clusters_shuffle_distinct_x [OF d m, of 25] d m show ?thesis
    by blast
qed

section \<open>Clustering and the viewport width\<close>

text \<open>
  Claim C3 as stated fails: four points at x = 0, 2, 5, 7 on one line. At width 25
  (threshold 2) they form the clusters \<open>{0, 2}\<close> and \<open>{5, 7}\<close>: four merged points. At
  width 75 (threshold 6) the seed at 0 takes 2 and 5 and leaves 7 alone: three merged points.
\<close>

theorem mergedCount_width_counterexample:
  "(25::real) \<le> 75 \<and>
   mergedCount (clusters linePoints 25) = 4 \<and> mergedCount (clusters linePoints 75) = 3"
  by (simp add: clusters_def linePoints_def pt_def sqrt_9 sqrt_25 sqrt_49 mergedCount_def
      mkCluster_def)

lemma near_mono: "th1 \<le> th2 \<Longrightarrow> near th1 p q \<Longrightarrow> near th2 p q"
  by (simp add: near_def)

lemma hasNearPair_mono: "th1 \<le> th2 \<Longrightarrow> hasNearPair th1 ps \<Longrightarrow> hasNearPair th2 ps"
  by (induction ps) (auto intro: near_mono)

lemma scanNeighbors_grows_near:
  "scanNeighbors th p rest (cp, used) = (cp', used') \<Longrightarrow> cp' \<noteq> cp \<Longrightarrow>
     \<exists>q \<in> set rest. near th p q"
proof (induction rest arbitrary: cp used)
  case Nil
  then show ?case by simp
next
  case (Cons n rest)
  show ?case
  proof (cases "t_id n \<notin> used \<and> near th p n")
    case True
    then show ?thesis by auto
  next
    case False
    with Cons.prems(1) have "scanNeighbors th p rest (cp, used) = (cp', used')"
      by (auto simp: near_def Let_def split: if_splits)
    from Cons.IH [OF this Cons.prems(2)] show ?thesis
      by auto
  qed
qed

lemma scanNeighbors_near_grows:
  "scanNeighbors th p rest (cp, used) = (cp', used') \<Longrightarrow>
     \<exists>q \<in> set rest. t_id q \<notin> used \<and> near th p q \<Longrightarrow> length cp < length cp'"
proof (induction rest arbitrary: cp used)
  case Nil
  then show ?case by simp
next
  case (Cons n rest)
  show ?case
  proof (cases "t_id n \<notin> used \<and> near th p n")
    case True
    with Cons.prems(1)
    have "scanNeighbors th p rest (cp @ [n], insert (t_id n) used) = (cp', used')"
      by (simp add: near_def)
    from scanNeighbors_extends [OF this] show ?thesis
      by auto
  next
    case False
    with Cons.prems(1) have run: "scanNeighbors th p rest (cp, used) = (cp', used')"
      by (auto simp: near_def Let_def split: if_splits)
    from False Cons.prems(2) have "\<exists>q \<in> set rest. t_id q \<notin> used \<and> near th p q"
      by auto
    from Cons.IH [OF run this] show ?thesis .
  qed
qed

lemma scanNeighbors_none_near:
  "\<forall>q \<in> set rest. \<not> near th p q \<Longrightarrow> scanNeighbors th p rest (cp, used) = (cp, used)"
  by (induction rest) (auto simp: near_def)

lemma clusterLoop_keeps_result: "set result \<subseteq> set (clusterLoop th ps used result)"
proof (induction ps arbitrary: used result)
  case Nil
  then show ?case by simp
next
  case (Cons p rest)
  show ?case
  proof (cases "t_id p \<in> used")
    case True
    with Cons.IH show ?thesis by simp
  next
    case False
    obtain cp used' where
      run: "scanNeighbors th p rest ([p], insert (t_id p) used) = (cp, used')"
      by (cases "scanNeighbors th p rest ([p], insert (t_id p) used)")
    have "set (result @ [mkCluster p cp])
            \<subseteq> set (clusterLoop th rest used' (result @ [mkCluster p cp]))"
      by (rule Cons.IH)
    with False run show ?thesis
      by auto
  qed
qed

lemma clusterLoop_multi_sound:
  "\<exists>c \<in> set (clusterLoop th ps used result). c_isCluster c \<Longrightarrow>
     (\<exists>c \<in> set result. c_isCluster c) \<or> hasNearPair th ps"
proof (induction ps arbitrary: used result)
  case Nil
  then show ?case by simp
next
  case (Cons p rest)
  show ?case
  proof (cases "t_id p \<in> used")
    case True
    with Cons.prems have "\<exists>c \<in> set (clusterLoop th rest used result). c_isCluster c"
      by simp
    from Cons.IH [OF this] show ?thesis
      by auto
  next
    case False
    obtain cp used' where
      run: "scanNeighbors th p rest ([p], insert (t_id p) used) = (cp, used')"
      by (cases "scanNeighbors th p rest ([p], insert (t_id p) used)")
    with False Cons.prems
    have "\<exists>c \<in> set (clusterLoop th rest used' (result @ [mkCluster p cp])). c_isCluster c"
      by simp
    from Cons.IH [OF this]
    consider "\<exists>c \<in> set result. c_isCluster c" | "c_isCluster (mkCluster p cp)"
      | "hasNearPair th rest"
      by auto
    then show ?thesis
    proof cases
      case 2
      then have "cp \<noteq> [p]"
        by (auto simp: mkCluster_def Let_def)
      from scanNeighbors_grows_near [OF run this] show ?thesis
        by simp
    qed auto
  qed
qed

lemma clusterLoop_multi_complete:
  "hasNearPair th ps \<Longrightarrow> distinct (map t_id ps) \<Longrightarrow> used \<inter> t_id ` set ps = {} \<Longrightarrow>
     \<exists>c \<in> set (clusterLoop th ps used result). c_isCluster c"
proof (induction ps arbitrary: used result)
  case Nil
  then show ?case by simp
next
  case (Cons p rest)
  from Cons.prems have fresh: "t_id p \<notin> used" "t_id p \<notin> t_id ` set rest"
    and dist: "distinct (map t_id rest)" and disj: "used \<inter> t_id ` set rest = {}"
    by auto
  obtain cp used' where
    run: "scanNeighbors th p rest ([p], insert (t_id p) used) = (cp, used')"
    by (cases "scanNeighbors th p rest ([p], insert (t_id p) used)")
  show ?case
  proof (cases "\<exists>q \<in> set rest. near th p q")
    case True
    then obtain q where q: "q \<in> set rest" "near th p q"
      by blast
    then have "t_id q \<in> t_id ` set rest"
      by simp
    with fresh disj have "t_id q \<notin> insert (t_id p) used"
      by auto
    with q have "\<exists>q \<in> set rest. t_id q \<notin> insert (t_id p) used \<and> near th p q"
      by blast
    from scanNeighbors_near_grows [OF run this] have "c_isCluster (mkCluster p cp)"
      by (simp add: mkCluster_def Let_def)
    moreover have "mkCluster p cp \<in> set (clusterLoop th rest used' (result @ [mkCluster p cp]))"
      using clusterLoop_keeps_result [of "result @ [mkCluster p cp]" th rest used'] by auto
    ultimately show ?thesis
      using fresh(1) run by auto
  next
    case False
    with run scanNeighbors_none_near [of rest th p "[p]" "insert (t_id p) used"]
    have same: "cp = [p]" "used' = insert (t_id p) used"
      by simp_all
    from False Cons.prems(1) have pair: "hasNearPair th rest"
      by simp
    from fresh disj have "insert (t_id p) used \<inter> t_id ` set rest = {}"
      by auto
    from Cons.IH [OF pair dist this, of "result @ [mkCluster p [p]]"] fresh(1) run same
    show ?thesis
      by simp
  qed
qed

lemma mergedCount_pos_iff:
  "0 < mergedCount cs \<longleftrightarrow> (\<exists>c \<in> set cs. c_isCluster c \<and> c_points c \<noteq> [])"
  by (induction cs) (auto simp: mergedCount_def)

text \<open>
  Claim C3, amended. For a point set with unique ids and widths \<open>w1 \<le> w2\<close>: if some point
  sits in a multi-member cluster at width \<open>w1\<close>, then some point sits in a multi-member
  cluster at width \<open>w2\<close>. The number of such points itself can drop.
\<close>

theorem mergedCount_positive_mono:
  assumes "distinct (map t_id P)" and "w1 \<le> w2" and "0 < mergedCount (clusters P w1)"
  shows "0 < mergedCount (clusters P w2)"
proof -
  let ?ps = "sort_key t_x P"
  have dist: "distinct (map t_id ?ps)"
    using assms(1) by (metis distinct_map distinct_sort set_sort)
  from assms(3) have "\<exists>c \<in> set (clusterLoop (w1 * 0.08) ?ps {} []). c_isCluster c"
    by (auto simp: mergedCount_pos_iff clusters_def Let_def)
  from clusterLoop_multi_sound [OF this] have "hasNearPair (w1 * 0.08) ?ps"
    by simp
  moreover from assms(2) have "w1 * 0.08 \<le> w2 * 0.08"
    by simp
  ultimately have "hasNearPair (w2 * 0.08) ?ps"
    by (rule hasNearPair_mono [rotated])
  from clusterLoop_multi_complete [OF this dist, of "{}" "[]"]
  obtain c where c: "c \<in> set (clusterLoop (w2 * 0.08) ?ps {} [])" "c_isCluster c"
    by auto
  have "\<forall>c \<in> set (clusterLoop (w2 * 0.08) ?ps {} []). centred c"
    by (rule clusterLoop_centred) simp
  with c have "c_points c \<noteq> []"
    by (simp add: centred_def)
  with c show ?thesis
    by (auto simp: mergedCount_pos_iff clusters_def Let_def)
qed

theorem mergedCount_positive_mono_witness:
  "distinct (map t_id linePoints) \<and> (25::real) \<le> 75 \<and>
   0 < mergedCount (clusters linePoints 25) \<and> 0 < mergedCount (clusters linePoints 75)"
proof -
  have d: "distinct (map t_id linePoints)"
    by (simp add: linePoints_def pt_def)
  have le: "(25::real) \<le> 75"
    by simp
  have pos: "0 < mergedCount (clusters linePoints 25)"
    by (simp add: clusters_def linePoints_def pt_def sqrt_9 sqrt_25 sqrt_49 mergedCount_def
        mkCluster_def)
  from mergedCount_positive_mono [OF d le pos] d le pos show ?thesis
    by blast
qed

section \<open>The density grid\<close>

lemma nth_concat_grid:
  "i < m \<Longrightarrow> j < n \<Longrightarrow>
     concat (map (\<lambda>i. map (f i) [0..<n]) [0..<m]) ! (i * n + j) = f i j"
proof (induction m)
  case 0
  then show ?case by simp
next
  case (Suc m)
  have len: "length (concat (map (\<lambda>i. map (f i) [0..<n]) [0..<m])) = m * n"
    by (induction m) simp_all
  show ?case
  proof (cases "i < m")
    case True
    then have "i * n + j < m * n"
      using Suc.prems(2)
      by (metis Suc_leI add.commute mult_Suc mult_le_mono1 nat_add_left_cancel_less
          order_less_le_trans)
    with True Suc show ?thesis
      by (simp add: nth_append len)
  next
    case False
    with Suc.prems have "i = m"
      by simp
    with Suc.prems show ?thesis
      by (simp add: nth_append len)
  qed
qed

lemma length_cells: "length (cells targets vb) = 900"
proof -
  have "length (concat (map (\<lambda>i. map (f i) [0..<n]) [0..<m])) = m * n" for f :: "nat \<Rightarrow> nat \<Rightarrow> Cell" and n m
    by (induction m) simp_all
  then show ?thesis
    by (simp add: cells_def gridSize_def)
qed

lemma cells_nth:
  "i < 30 \<Longrightarrow> j < 30 \<Longrightarrow> cells targets vb ! (i * 30 + j) = cellAt targets vb i j"
  using nth_concat_grid [of i 30 j 30 "cellAt targets vb"]
  by (simp add: cells_def gridSize_def)

lemma cells_set:
  "c \<in> set (cells targets vb) \<Longrightarrow> \<exists>i < 30. \<exists>j < 30. c = cellAt targets vb i j"
  by (auto simp: cells_def gridSize_def) blast

lemma cellAt_intensity:
  "cell_intensity (cellAt targets vb i j) = spec_density targets (cellCentre (cellAt targets vb i j))"
  unfolding cellAt_def Let_def spec_density_def cellCentre_def euclid_def foldl_add_sum_list
  by (simp only: Cell.simps fst_conv snd_conv add_0 min.commute flip: power2_eq_square)

lemma spec_density_range:
  assumes "\<forall>t \<in> set targets. 0 \<le> t_probability t"
  shows "0 \<le> spec_density targets centre \<and> spec_density targets centre \<le> 1"
proof -
  have "0 \<le> sum_list (map (\<lambda>t. t_probability t * exp (- (euclid centre (t_x t, t_y t))\<^sup>2 / 100))
                         targets)"
    using assms by (intro sum_list_nonneg) auto
  then show ?thesis
    by (simp add: spec_density_def)
qed

lemma spec_density_coincident:
  "t_probability t = 1 \<Longrightarrow> spec_density [t] (t_x t, t_y t) = 1"
  by (simp add: spec_density_def euclid_def)

text \<open>
  Claim C4. For a point set with probabilities in \<open>[0, 1]\<close> and any viewport rectangle: the
  grid has exactly 900 cells; the cell with indices \<open>i, j < 30\<close> is the \<open>i\<close>-th column and
  \<open>j\<close>-th row of the 30 by 30 tiling of the viewport; the intensity of each cell is
  \<open>min 1\<close> of the sum over all points of \<open>probability * exp (- d\<^sup>2 / 100)\<close>, with \<open>d\<close> the
  Euclidean distance from the cell centre to the point, and lies in \<open>[0, 1]\<close>; a cell whose
  centre is the position of a single point of probability 1 has intensity 1; with no points
  every intensity is 0.
\<close>

theorem cells_density:
  assumes "\<forall>t \<in> set targets. 0 \<le> t_probability t \<and> t_probability t \<le> 1"
  shows "length (cells targets vb) = 900 \<and>
         (\<forall>i < 30. \<forall>j < 30.
            cell_x (cells targets vb ! (i * 30 + j)) = vb_x vb + real i * (vb_w vb / 30) \<and>
            cell_y (cells targets vb ! (i * 30 + j)) = vb_y vb + real j * (vb_h vb / 30) \<and>
            cell_w (cells targets vb ! (i * 30 + j)) = vb_w vb / 30 \<and>
            cell_h (cells targets vb ! (i * 30 + j)) = vb_h vb / 30) \<and>
         (\<forall>c \<in> set (cells targets vb).
            cell_intensity c = spec_density targets (cellCentre c) \<and>
            0 \<le> cell_intensity c \<and> cell_intensity c \<le> 1) \<and>
         (\<forall>c \<in> set (cells [t] vb).
            t_probability t = 1 \<and> cellCentre c = (t_x t, t_y t) \<longrightarrow> cell_intensity c = 1) \<and>
         (\<forall>c \<in> set (cells [] vb). cell_intensity c = 0)"
proof (intro conjI)
  show "length (cells targets vb) = 900"
    by (rule length_cells)
  show "\<forall>i < 30. \<forall>j < 30.
            cell_x (cells targets vb ! (i * 30 + j)) = vb_x vb + real i * (vb_w vb / 30) \<and>
            cell_y (cells targets vb ! (i * 30 + j)) = vb_y vb + real j * (vb_h vb / 30) \<and>
            cell_w (cells targets vb ! (i * 30 + j)) = vb_w vb / 30 \<and>
            cell_h (cells targets vb ! (i * 30 + j)) = vb_h vb / 30"
    by (simp add: cells_nth) (simp add: cellAt_def Let_def gridSize_def)
  have pos: "\<forall>t \<in> set targets. 0 \<le> t_probability t"
    using assms by simp
  show "\<forall>c \<in> set (cells targets vb).
            cell_intensity c = spec_density targets (cellCentre c) \<and>
            0 \<le> cell_intensity c \<and> cell_intensity c \<le> 1"
  proof
    fix c assume "c \<in> set (cells targets vb)"
    then obtain i j where "c = cellAt targets vb i j"
      by (blast dest: cells_set)
    then have "cell_intensity c = spec_density targets (cellCentre c)"
      by (simp add: cellAt_intensity)
    with spec_density_range [OF pos, of "cellCentre c"]
    show "cell_intensity c = spec_density targets (cellCentre c) \<and>
            0 \<le> cell_intensity c \<and> cell_intensity c \<le> 1"
      by simp
  qed
  show "\<forall>c \<in> set (cells [t] vb).
            t_probability t = 1 \<and> cellCentre c = (t_x t, t_y t) \<longrightarrow> cell_intensity c = 1"
  proof (intro ballI impI)
    fix c assume "c \<in> set (cells [t] vb)"
      and hit: "t_probability t = 1 \<and> cellCentre c = (t_x t, t_y t)"
    then obtain i j where "c = cellAt [t] vb i j"
      by (blast dest: cells_set)
    then have "cell_intensity c = spec_density [t] (cellCentre c)"
      by (simp add: cellAt_intensity)
    with hit spec_density_coincident [of t] show "cell_intensity c = 1"
      by simp
  qed
  show "\<forall>c \<in> set (cells [] vb). cell_intensity c = 0"
    by (auto dest!: cells_set simp: cellAt_def)
qed

theorem cells_density_witness:
  "0 \<le> t_probability cornerPoint \<and> t_probability cornerPoint \<le> 1 \<and>
   length (cells [cornerPoint] squareViewBox) = 900 \<and>
   t_probability cornerPoint = 1 \<and>
   cellCentre (cells [cornerPoint] squareViewBox ! 0) = (t_x cornerPoint, t_y cornerPoint) \<and>
   cell_intensity (cells [cornerPoint] squareViewBox ! 0) = 1"
proof -
  let ?c = "cells [cornerPoint] squareViewBox ! 0"
  have prob: "\<forall>t \<in> set [cornerPoint]. 0 \<le> t_probability t \<and> t_probability t \<le> 1"
    by (simp add: cornerPoint_def pt_def)
  note main = cells_density [OF prob, of squareViewBox cornerPoint]
  from main have len: "length (cells [cornerPoint] squareViewBox) = 900"
    by blast
  then have mem: "?c \<in> set (cells [cornerPoint] squareViewBox)"
    by simp
  from main have "\<forall>i < 30. \<forall>j < 30.
      cell_x (cells [cornerPoint] squareViewBox ! (i * 30 + j))
        = vb_x squareViewBox + real i * (vb_w squareViewBox / 30) \<and>
      cell_y (cells [cornerPoint] squareViewBox ! (i * 30 + j))
        = vb_y squareViewBox + real j * (vb_h squareViewBox / 30) \<and>
      cell_w (cells [cornerPoint] squareViewBox ! (i * 30 + j)) = vb_w squareViewBox / 30 \<and>
      cell_h (cells [cornerPoint] squareViewBox ! (i * 30 + j)) = vb_h squareViewBox / 30"
    by blast
  from this [rule_format, of 0 0]
  have centre: "cellCentre ?c = (t_x cornerPoint, t_y cornerPoint)"
    by (simp add: cellCentre_def squareViewBox_def cornerPoint_def pt_def)
  have one: "t_probability cornerPoint = 1"
    by (simp add: cornerPoint_def pt_def)
  from main have "\<forall>c \<in> set (cells [cornerPoint] squareViewBox).
      t_probability cornerPoint = 1 \<and> cellCentre c = (t_x cornerPoint, t_y cornerPoint)
        \<longrightarrow> cell_intensity c = 1"
    by blast
  with mem one centre have "cell_intensity ?c = 1"
    by blast
  with len one centre show ?thesis
    by simp
qed

section \<open>Panning\<close>

text \<open>
  Claim C5. In a container of positive size, a move during a drag from the last recorded
  pointer position to \<open>client\<close>, with pixel delta \<open>(dx, dy)\<close>, moves the origin of the
  rectangle by \<open>- dx * (width of the rectangle / width of the container)\<close> and
  \<open>- dy * (height of the rectangle / height of the container)\<close>, whatever the rectangle is
  (no bounds are applied), and keeps its width and height. The data-space point under the
  cursor is the same before and after the move, for every position \<open>(ox, oy)\<close> of the
  container on the screen, and the recorded pointer position becomes \<open>client\<close>.
\<close>

theorem handleMouseMove_pan:
  assumes "0 < width" and "0 < height" and "isDragging s"
  shows "vb_x (viewBox (handleMouseMove width height client s))
           = vb_x (viewBox s) - (fst client - fst (dragStart s)) * (vb_w (viewBox s) / width) \<and>
         vb_y (viewBox (handleMouseMove width height client s))
           = vb_y (viewBox s) - (snd client - snd (dragStart s)) * (vb_h (viewBox s) / height) \<and>
         vb_w (viewBox (handleMouseMove width height client s)) = vb_w (viewBox s) \<and>
         vb_h (viewBox (handleMouseMove width height client s)) = vb_h (viewBox s) \<and>
         svgPoint width height (viewBox (handleMouseMove width height client s))
             (fst client - ox, snd client - oy)
           = svgPoint width height (viewBox s)
               (fst (dragStart s) - ox, snd (dragStart s) - oy) \<and>
         dragStart (handleMouseMove width height client s) = client"
proof -
  let ?s' = "handleMouseMove width height client s"
  let ?dx = "fst client - fst (dragStart s)"
  let ?dy = "snd client - snd (dragStart s)"
  have x: "vb_x (viewBox ?s') = vb_x (viewBox s) - ?dx * (vb_w (viewBox s) / width)"
    and y: "vb_y (viewBox ?s') = vb_y (viewBox s) - ?dy * (vb_h (viewBox s) / height)"
    and w: "vb_w (viewBox ?s') = vb_w (viewBox s)"
    and h: "vb_h (viewBox ?s') = vb_h (viewBox s)"
    using assms(3) by (simp_all add: handleMouseMove_def Let_def)
  have start: "dragStart ?s' = client"
    using assms(3) by (cases client) (auto simp: handleMouseMove_def Let_def prod_eq_iff)
  have px: "vb_x (viewBox ?s') + ((fst client - ox) / width) * vb_w (viewBox ?s')
              = vb_x (viewBox s) + ((fst (dragStart s) - ox) / width) * vb_w (viewBox s)"
    unfolding x w using assms(1) by (simp add: field_simps)
  have py: "vb_y (viewBox ?s') + ((snd client - oy) / height) * vb_h (viewBox ?s')
              = vb_y (viewBox s) + ((snd (dragStart s) - oy) / height) * vb_h (viewBox s)"
    unfolding y h using assms(2) by (simp add: field_simps)
  from x y w h px py start show ?thesis
    by (simp add: svgPoint_def)
qed

theorem handleMouseMove_pan_witness:
  "(0::real) < 200 \<and> (0::real) < 100 \<and> isDragging draggingState \<and>
   vb_x (viewBox (handleMouseMove 200 100 (30, 15) draggingState)) = - 10 \<and>
   vb_y (viewBox (handleMouseMove 200 100 (30, 15) draggingState)) = - 5 \<and>
   svgPoint 200 100 (viewBox (handleMouseMove 200 100 (30, 15) draggingState)) (30, 15)
     = svgPoint 200 100 (viewBox draggingState) (10, 10)"
proof -
  have w: "(0::real) < 200" and h: "(0::real) < 100"
    by simp_all
  have d: "isDragging draggingState"
    by (simp add: draggingState_def)
  from handleMouseMove_pan [OF w h d, of "(30, 15)" 0 0] w h d show ?thesis
    by (simp add: draggingState_def squareViewBox_def)
qed

section \<open>Zoom buttons\<close>

lemma getBaseViewBox_square: "getBaseViewBox 100 100 = squareViewBox"
  by (simp add: getBaseViewBox_def aspect_def squareViewBox_def)

lemma getBaseViewBox_extent:
  assumes "0 < width" and "0 < height"
  shows "100 \<le> vb_w (getBaseViewBox width height) \<and> 100 \<le> vb_h (getBaseViewBox width height)"
proof (cases "aspect width height > 1")
  case True
  then show ?thesis
    by (simp add: getBaseViewBox_def Let_def)
next
  case False
  moreover have "0 < aspect width height"
    using assms by (simp add: aspect_def)
  ultimately have "100 \<le> 100 / aspect width height"
    by (simp add: field_simps)
  with False show ?thesis
    by (simp add: getBaseViewBox_def Let_def)
qed

text \<open>
  Claim C6 as stated fails: the zoom buttons do not clamp the origin. In a 100 by 100
  container (base rectangle: the unit square of data space, buffered bounds from -50 to 150)
  the rectangle at the lower corner of the buffered bounds, zoomed out by 6/5, gets the
  origin (-55, -55), which the boundary checks of the wheel zoom would move to (-50, -50).
\<close>

theorem handleZoom_clamp_counterexample:
  "handleZoom 100 100 (6 / 5) cornerViewBox
     = \<lparr>vb_x = - 55, vb_y = - 55, vb_w = 60, vb_h = 60\<rparr> \<and>
   clampOrigin (getBaseViewBox 100 100) (handleZoom 100 100 (6 / 5) cornerViewBox)
     = \<lparr>vb_x = - 50, vb_y = - 50, vb_w = 60, vb_h = 60\<rparr> \<and>
   clampOrigin (getBaseViewBox 100 100) (handleZoom 100 100 (6 / 5) cornerViewBox)
     \<noteq> handleZoom 100 100 (6 / 5) cornerViewBox"
proof -
  have z: "handleZoom 100 100 (6 / 5) cornerViewBox
             = \<lparr>vb_x = - 55, vb_y = - 55, vb_w = 60, vb_h = 60\<rparr>"
    by (simp add: handleZoom_def getBaseViewBox_square)
       (simp add: squareViewBox_def cornerViewBox_def)
  have c: "clampOrigin (getBaseViewBox 100 100) \<lparr>vb_x = - 55, vb_y = - 55, vb_w = 60, vb_h = 60\<rparr>
             = \<lparr>vb_x = - 50, vb_y = - 50, vb_w = 60, vb_h = 60\<rparr>"
    by (simp add: clampOrigin_def getBaseViewBox_square) (simp add: squareViewBox_def)
  show ?thesis
    unfolding z c by simp
qed

text \<open>
  Claim C6, amended. In a container of positive size: a zoom-out request (factor above 1)
  at or above the base width returns the base rectangle, as does every request whose scaled
  width exceeds the base width; a zoom-in request (factor below 1) whose scaled width is
  below 2 returns the rectangle unchanged; when the scaled width lies between 2 and the base
  width, width and height are scaled by the factor, the centre of the rectangle stays where
  it is, and the origin is the old origin plus half the change of extent, with no clamping
  against the buffered bounds.
\<close>

theorem handleZoom_contract:
  assumes "0 < width" and "0 < height"
  shows "(1 < factor \<and> vb_w (getBaseViewBox width height) \<le> vb_w prev \<longrightarrow>
            handleZoom width height factor prev = getBaseViewBox width height) \<and>
         (vb_w (getBaseViewBox width height) < vb_w prev * factor \<longrightarrow>
            handleZoom width height factor prev = getBaseViewBox width height) \<and>
         (factor < 1 \<and> vb_w prev * factor < 2 \<longrightarrow>
            handleZoom width height factor prev = prev) \<and>
         (2 \<le> vb_w prev * factor \<and> vb_w prev * factor \<le> vb_w (getBaseViewBox width height) \<longrightarrow>
            vb_w (handleZoom width height factor prev) = vb_w prev * factor \<and>
            vb_h (handleZoom width height factor prev) = vb_h prev * factor \<and>
            vb_x (handleZoom width height factor prev)
              = vb_x prev + (vb_w prev - vb_w prev * factor) / 2 \<and>
            vb_y (handleZoom width height factor prev)
              = vb_y prev + (vb_h prev - vb_h prev * factor) / 2 \<and>
            vb_x (handleZoom width height factor prev)
                + vb_w (handleZoom width height factor prev) / 2
              = vb_x prev + vb_w prev / 2 \<and>
            vb_y (handleZoom width height factor prev)
                + vb_h (handleZoom width height factor prev) / 2
              = vb_y prev + vb_h prev / 2)"
proof (intro conjI impI)
  let ?base = "getBaseViewBox width height"
  have big: "100 \<le> vb_w ?base"
    using getBaseViewBox_extent [OF assms] by simp
  show "handleZoom width height factor prev = ?base"
    if "1 < factor \<and> vb_w ?base \<le> vb_w prev"
  proof -
    from that big have "0 < vb_w prev"
      by simp
    with that have "vb_w prev * 1 < vb_w prev * factor"
      by (simp only: mult_less_cancel_left_pos)
    with that have "vb_w ?base < vb_w prev * factor"
      by simp
    then show ?thesis
      by (simp add: handleZoom_def Let_def)
  qed
  show "handleZoom width height factor prev = ?base" if "vb_w ?base < vb_w prev * factor"
    using that by (simp add: handleZoom_def Let_def)
  show "handleZoom width height factor prev = prev" if "factor < 1 \<and> vb_w prev * factor < 2"
    using that big by (simp add: handleZoom_def Let_def)
  assume mid: "2 \<le> vb_w prev * factor \<and> vb_w prev * factor \<le> vb_w ?base"
  then have r: "handleZoom width height factor prev
                  = \<lparr>vb_x = vb_x prev + (vb_w prev - vb_w prev * factor) / 2,
                     vb_y = vb_y prev + (vb_h prev - vb_h prev * factor) / 2,
                     vb_w = vb_w prev * factor, vb_h = vb_h prev * factor\<rparr>"
    by (simp add: handleZoom_def Let_def)
  show "vb_w (handleZoom width height factor prev) = vb_w prev * factor"
    and "vb_h (handleZoom width height factor prev) = vb_h prev * factor"
    and "vb_x (handleZoom width height factor prev)
           = vb_x prev + (vb_w prev - vb_w prev * factor) / 2"
    and "vb_y (handleZoom width height factor prev)
           = vb_y prev + (vb_h prev - vb_h prev * factor) / 2"
    and "vb_x (handleZoom width height factor prev)
             + vb_w (handleZoom width height factor prev) / 2
           = vb_x prev + vb_w prev / 2"
    and "vb_y (handleZoom width height factor prev)
             + vb_h (handleZoom width height factor prev) / 2
           = vb_y prev + vb_h prev / 2"
    unfolding r by (simp_all add: field_simps)
qed

theorem handleZoom_contract_witness:
  "(0::real) < 100 \<and>
   handleZoom 100 100 (133 / 100) squareViewBox = getBaseViewBox 100 100 \<and>
   handleZoom 100 100 (3 / 4) \<lparr>vb_x = 49, vb_y = 49, vb_w = 2, vb_h = 2\<rparr>
     = \<lparr>vb_x = 49, vb_y = 49, vb_w = 2, vb_h = 2\<rparr> \<and>
   vb_x (handleZoom 100 100 (6 / 5) cornerViewBox) = - 55 \<and>
   vb_w (handleZoom 100 100 (6 / 5) cornerViewBox) = 60"
proof -
  have p: "(0::real) < 100"
    by simp
  note base = getBaseViewBox_square
  have "handleZoom 100 100 (133 / 100) squareViewBox = getBaseViewBox 100 100"
    using handleZoom_contract [OF p p, of "133 / 100" squareViewBox]
    by (simp add: base)
  moreover have "handleZoom 100 100 (3 / 4) \<lparr>vb_x = 49, vb_y = 49, vb_w = 2, vb_h = 2\<rparr>
                   = \<lparr>vb_x = 49, vb_y = 49, vb_w = 2, vb_h = 2\<rparr>"
    using handleZoom_contract [OF p p, of "3 / 4" "\<lparr>vb_x = 49, vb_y = 49, vb_w = 2, vb_h = 2\<rparr>"]
    by simp
  moreover have "vb_x (handleZoom 100 100 (6 / 5) cornerViewBox) = - 55 \<and>
                 vb_w (handleZoom 100 100 (6 / 5) cornerViewBox) = 60"
    using handleZoom_contract [OF p p, of "6 / 5" cornerViewBox]
    by (simp add: base squareViewBox_def cornerViewBox_def)
  ultimately show ?thesis
    using p by blast
qed

section \<open>Cluster drill-down\<close>

lemma sqrt_100: "sqrt 100 = 10"
  using real_sqrt_abs2 [of 10] by simp

lemma show_int_1: "show_int 1 = ''1''"
  by (simp add: show_int_def)

lemma clusters_tallPoints: "clusters tallPoints 150 = [tallCluster]"
  by (simp add: clusters_def tallPoints_def tallCluster_def pt_def mkCluster_def sqrt_100
      show_int_1)

text \<open>
  Claim C7 at a concrete input: in the 600 by 400 container the cluster of the points
  (50, 45) and (50, 55) has the bounding box centre (50, 50). The click sets the rectangle
  with origin (42.5, 42.5), width 22.5 and height 15: its aspect ratio is that of the
  container, but its centre is (53.75, 50). The origin is computed from the side 15 of a
  square, before the width is replaced by height times aspect.
\<close>

theorem handleClusterClick_off_centre:
  "handleClusterClick 600 400 tallCluster idleState
     = Inr (idleState\<lparr>viewBox := \<lparr>vb_x = 85 / 2, vb_y = 85 / 2, vb_w = 45 / 2, vb_h = 15\<rparr>\<rparr>) \<and>
   clusterBounds (c_points tallCluster) = (50, 50, 45, 55) \<and>
   vb_x (drillDownViewBox 600 400 (c_points tallCluster))
     + vb_w (drillDownViewBox 600 400 (c_points tallCluster)) / 2 = 215 / 4 \<and>
   vb_y (drillDownViewBox 600 400 (c_points tallCluster))
     + vb_h (drillDownViewBox 600 400 (c_points tallCluster)) / 2 = 50"
proof -
  have b: "clusterBounds tallPoints = (50, 50, 45, 55)"
    by (simp add: clusterBounds_def tallPoints_def pt_def)
  have d: "drillDownViewBox 600 400 tallPoints
             = \<lparr>vb_x = 85 / 2, vb_y = 85 / 2, vb_w = 45 / 2, vb_h = 15\<rparr>"
    unfolding drillDownViewBox_def b aspect_def
    by (simp only: prod.case Let_def) simp
  have pts: "c_points tallCluster = tallPoints" and multi: "c_isCluster tallCluster"
    by (simp_all add: tallCluster_def)
  have idle: "\<not> dragDistance idleState > 5"
    by (simp add: idleState_def)
  show ?thesis
    unfolding pts by (simp add: handleClusterClick_def idle multi pts b d)
qed

section \<open>Container dimensions that are zero or negative\<close>


lemma getBaseViewBox_js_sel:
  "js_w (getBaseViewBox_js rnd width height)
     = (if js_gt (js_div rnd width height) (Fin 1)
        then js_mul rnd (Fin 100) (js_div rnd width height) else Fin 100)"
  "js_h (getBaseViewBox_js rnd width height)
     = (if js_gt (js_div rnd width height) (Fin 1)
        then Fin 100 else js_div rnd (Fin 100) (js_div rnd width height))"
  "js_x (getBaseViewBox_js rnd width height)
     = js_sub rnd (Fin 50) (js_div rnd (js_w (getBaseViewBox_js rnd width height)) (Fin 2))"
  "js_y (getBaseViewBox_js rnd width height)
     = js_sub rnd (Fin 50) (js_div rnd (js_h (getBaseViewBox_js rnd width height)) (Fin 2))"
  by (simp_all add: getBaseViewBox_js_def Let_def)



text \<open>With width 0 and a negative height the aspect is \<^verbatim>\<open>-0\<close> and the height \<^verbatim>\<open>-Infinity\<close>.\<close>

lemma getBaseViewBox_js_zero_width:
  "js_h (getBaseViewBox_js rnd (Fin 0) (Fin (- 400))) = NInf"
proof -
  have a: "js_div rnd (Fin 0) (Fin (- 400)) = NZero"
    by (simp add: js_div_def js_zero_def)
  show ?thesis
    unfolding getBaseViewBox_js_sel a by (simp add: js_gt_def js_div_def js_signed_def)
qed


















section \<open>Clicks and drags\<close>

lemma fiveDragState_eq:
  "fiveDragState = idleState\<lparr>dragStart := (13, 12), dragDistance := 5,
                               viewBox := \<lparr>vb_x = - 3, vb_y = - 2, vb_w = 100, vb_h = 100\<rparr>\<rparr>"
  by (simp add: fiveDragState_def handleMouseUp_def handleMouseMove_def handleMouseDown_def
      idleState_def squareViewBox_def)

text \<open>
  What the two click handlers do for each accumulated displacement: the container clears the
  selection below 5 pixels only; a cluster acts up to and including 5 pixels; a click on a
  cluster never reaches the container handler.
\<close>

lemma click_classification:
  "(dragDistance s < 5 \<longrightarrow> click width height OnEmpty s = Inr (s\<lparr>selectedTargetId := None\<rparr>)) \<and>
   (5 \<le> dragDistance s \<longrightarrow> click width height OnEmpty s = Inr s) \<and>
   (dragDistance s \<le> 5 \<and> \<not> c_isCluster c \<and> c_points c = p0 # ps \<longrightarrow>
      click width height (OnCluster c) s = Inr (s\<lparr>selectedTargetId := Some (t_id p0)\<rparr>)) \<and>
   (dragDistance s \<le> 5 \<and> c_isCluster c \<longrightarrow>
      click width height (OnCluster c) s
        = Inr (s\<lparr>viewBox := drillDownViewBox width height (c_points c)\<rparr>)) \<and>
   (5 < dragDistance s \<longrightarrow> click width height (OnCluster c) s = Inr s)"
  by (simp add: click_def handleContainerClick_def handleClusterClick_def)

text \<open>
  Claim C9 at a concrete input: a press, a move of 3 pixels right and 2 pixels down, and a
  release accumulate a displacement of exactly 5 pixels. The container handler treats this
  as a drag and keeps the selection; the click on a single-point cluster still selects its
  point, and the click on a multi-member cluster still drills down.
\<close>

theorem click_at_five_pixels:
  "dragDistance fiveDragState = 5 \<and>
   click 100 100 OnEmpty fiveDragState = Inr fiveDragState \<and>
   click 100 100 (OnCluster singleCluster) fiveDragState
     = Inr (fiveDragState\<lparr>selectedTargetId := Some 7\<rparr>) \<and>
   click 100 100 (OnCluster tallCluster) fiveDragState
     = Inr (fiveDragState\<lparr>viewBox := drillDownViewBox 100 100 tallPoints\<rparr>)"
proof -
  have five: "dragDistance fiveDragState = 5"
    by (simp add: fiveDragState_eq)
  show ?thesis
    by (simp add: five click_def handleContainerClick_def handleClusterClick_def
        singleCluster_def tallCluster_def pt_def)
qed

end
